theory Spec2Isabelle
  imports Complex_Main "HOL-Library.Word"
begin

section \<open>Shared data: Go errors and call outcomes\<close>

text \<open>
  A Go \<^verbatim>\<open>error\<close> value is either one built by \<^verbatim>\<open>errors.New\<close> / \<^verbatim>\<open>fmt.Errorf\<close>
  (an error string, told apart by its message) or one handed back by a library
  (net/http transport, ioutil, encoding/json, os); the latter are opaque, of type \<open>'x\<close>.
  The \<^verbatim>\<open>nil\<close> error is \<open>None\<close> of \<open>'x go_error option\<close>.
\<close>

datatype 'x go_error = errorString string | libError 'x

text \<open>A call either returns its results or panics with a message.\<close>

datatype 'a outcome = Returns 'a | Panics string

section \<open>internal/helpers/util.go: FetchUrlAs\<close>

text \<open>
  The parts of \<^verbatim>\<open>http.Request\<close> and \<^verbatim>\<open>http.Response\<close> that FetchUrlAs touches.
  \<open>Body\<close> is what \<^verbatim>\<open>ioutil.ReadAll(resp.Body)\<close> yields: the bytes read and the read error.
\<close>

record Request =
  Method :: string
  URL :: string
  Header :: "(string \<times> string) list"

record 'x Response =
  StatusCode :: int
  Status :: string
  Body :: "string \<times> 'x go_error option"

text \<open>
  The network as FetchUrlAs sees it: \<^verbatim>\<open>http.NewRequest(method, url, nil)\<close> returns
  \<^verbatim>\<open>(req, err)\<close> and \<^verbatim>\<open>http.DefaultClient.Do(req)\<close> returns \<^verbatim>\<open>(resp, err)\<close>.
\<close>

record 'x http =
  NewRequest :: "string \<Rightarrow> string \<Rightarrow> Request option \<times> 'x go_error option"
  Do :: "Request \<Rightarrow> 'x Response option \<times> 'x go_error option"

definition StatusOK :: int where "StatusOK = 200"
definition StatusTooManyRequests :: int where "StatusTooManyRequests = 429"
definition StatusInternalServerError :: int where "StatusInternalServerError = 500"

definition errors_New :: "string \<Rightarrow> 'x go_error" where
  "errors_New text = errorString text"

text \<open>\<^verbatim>\<open>fmt.Errorf("got %s, wanted 200 OK", status)\<close>\<close>

definition Errorf_got_wanted :: "string \<Rightarrow> 'x go_error" where
  "Errorf_got_wanted status = errorString (''got '' @ status @ '', wanted 200 OK'')"

definition Header_Add :: "string \<Rightarrow> string \<Rightarrow> Request \<Rightarrow> Request" where
  "Header_Add key val req = req\<lparr>Header := Header req @ [(key, val)]\<rparr>"

text \<open>
  \<^verbatim>\<open>
  func FetchUrlAs(urlStr string, auth string, v interface{}) error {
      req, err := http.NewRequest("GET", urlStr, nil)
      if len(auth) > 0 { req.Header.Add("Authorization", auth) }
      if resp, err := http.DefaultClient.Do(req); err == nil {
          defer resp.Body.Close()
          if resp.StatusCode == http.StatusTooManyRequests {
              return errors.New("rate limited")
          } else if resp.StatusCode == http.StatusInternalServerError {
              return errors.New("internal server error")
          }
          if resp.StatusCode != http.StatusOK {
              return fmt.Errorf("got %s, wanted 200 OK", resp.Status)
          }
          if contents, err := ioutil.ReadAll(resp.Body); err == nil {
              return json.Unmarshal(contents, v)
          }
      }
      return err
  }
  \<close>
  The target \<open>v\<close> is a pointer that \<^verbatim>\<open>json.Unmarshal\<close> writes through, so the model
  returns the error together with the target's value after the call. \<open>unmarshal\<close>
  stands for \<^verbatim>\<open>json.Unmarshal\<close>: from the bytes and the target before, the error and the
  target after. The two inner \<^verbatim>\<open>err\<close> are declared by \<^verbatim>\<open>:=\<close> in the \<^verbatim>\<open>if\<close> headers and
  are local to those statements; the \<^verbatim>\<open>err\<close> of the last line is the one of the first
  line. A \<^verbatim>\<open>nil\<close> request is dereferenced by \<^verbatim>\<open>req.Header\<close> or inside \<^verbatim>\<open>Do\<close>; a \<^verbatim>\<open>nil\<close>
  response with a \<^verbatim>\<open>nil\<close> error is dereferenced by \<^verbatim>\<open>resp.Body\<close>.
\<close>

definition nil_dereference :: string where
  "nil_dereference = ''invalid memory address or nil pointer dereference''"

definition FetchUrlAs_response ::
  "(string \<Rightarrow> 'v \<Rightarrow> 'x go_error option \<times> 'v) \<Rightarrow> 'x go_error option \<Rightarrow> 'x Response \<Rightarrow> 'v
     \<Rightarrow> ('x go_error option \<times> 'v) outcome" where
  "FetchUrlAs_response unmarshal err resp v =
     (if StatusCode resp = StatusTooManyRequests then Returns (Some (errors_New ''rate limited''), v)
      else if StatusCode resp = StatusInternalServerError
        then Returns (Some (errors_New ''internal server error''), v)
      else if StatusCode resp \<noteq> StatusOK then Returns (Some (Errorf_got_wanted (Status resp)), v)
      else (case Body resp of
              (contents, None) \<Rightarrow> Returns (unmarshal contents v)
            | (contents, Some err2) \<Rightarrow> Returns (err, v)))"

definition with_auth :: "string \<Rightarrow> Request \<Rightarrow> Request" where
  "with_auth auth req = (if length auth > 0 then Header_Add ''Authorization'' auth req else req)"

definition FetchUrlAs ::
  "'x http \<Rightarrow> (string \<Rightarrow> 'v \<Rightarrow> 'x go_error option \<times> 'v) \<Rightarrow> string \<Rightarrow> string \<Rightarrow> 'v
     \<Rightarrow> ('x go_error option \<times> 'v) outcome" where
  "FetchUrlAs net unmarshal urlStr auth v =
     (case NewRequest net ''GET'' urlStr of
        (None, err) \<Rightarrow> Panics nil_dereference
      | (Some req0, err) \<Rightarrow>
          (let req = with_auth auth req0
           in case Do net req of
                (Some resp, None) \<Rightarrow> FetchUrlAs_response unmarshal err resp v
              | (None, None) \<Rightarrow> Panics nil_dereference
              | (resp, Some err1) \<Rightarrow> Returns (err, v)))"

section \<open>Library functions of package strings used by the helpers\<close>

text \<open>
  A Go string is a sequence of bytes: \<open>string\<close>, whose \<open>char\<close> is a byte.
  \<^verbatim>\<open>strings.HasPrefix(s, prefix)\<close> and \<^verbatim>\<open>strings.Contains(s, substr)\<close>.
\<close>

fun HasPrefix :: "string \<Rightarrow> string \<Rightarrow> bool" where
  "HasPrefix s [] = True"
| "HasPrefix [] (p # ps) = False"
| "HasPrefix (c # cs) (p # ps) = (c = p \<and> HasPrefix cs ps)"

fun Contains :: "string \<Rightarrow> string \<Rightarrow> bool" where
  "Contains [] substr = (substr = [])"
| "Contains (c # cs) substr = (HasPrefix (c # cs) substr \<or> Contains cs substr)"

text \<open>
  \<^verbatim>\<open>utf8.RuneCountInString\<close>: one rune per ASCII byte, per well-formed multi-byte
  sequence and per byte that starts none. \<open>first\<close> is the table of leading bytes: the
  length of the sequence and the range accepted for its second byte.
\<close>

definition first :: "nat \<Rightarrow> (nat \<times> nat \<times> nat) option" where
  "first c =
     (if 194 \<le> c \<and> c \<le> 223 then Some (2, 128, 191)
      else if c = 224 then Some (3, 160, 191)
      else if c = 237 then Some (3, 128, 159)
      else if 225 \<le> c \<and> c \<le> 239 then Some (3, 128, 191)
      else if c = 240 then Some (4, 144, 191)
      else if 241 \<le> c \<and> c \<le> 243 then Some (4, 128, 191)
      else if c = 244 then Some (4, 128, 143)
      else None)"

definition outside :: "nat \<Rightarrow> nat \<Rightarrow> char \<Rightarrow> bool" where
  "outside lo hi c = (of_char c < lo \<or> hi < (of_char c :: nat))"

definition rune_size :: "char \<Rightarrow> string \<Rightarrow> nat" where
  "rune_size c rest =
     (if (of_char c :: nat) < 128 then 1
      else case first (of_char c) of
             None \<Rightarrow> 1
           | Some (n, lo, hi) \<Rightarrow>
               if length rest + 1 < n then 1
               else if outside lo hi (rest ! 0) then 1
               else if n = 2 then 2
               else if outside 128 191 (rest ! 1) then 1
               else if n = 3 then 3
               else if outside 128 191 (rest ! 2) then 1
               else 4)"

fun RuneCountInString :: "string \<Rightarrow> nat" where
  "RuneCountInString [] = 0"
| "RuneCountInString (c # cs) = Suc (RuneCountInString (drop (rune_size c cs - 1) cs))"

text \<open>
  \<^verbatim>\<open>strings.Count(s, substr)\<close>: the number of non-overlapping instances of \<open>substr\<close> in
  \<open>s\<close>, searched from the left, each search resuming behind the instance found; for the
  empty \<open>substr\<close>, one more than the number of runes of \<open>s\<close>.
\<close>

fun count_instances :: "string \<Rightarrow> string \<Rightarrow> nat" where
  "count_instances [] substr = 0"
| "count_instances (c # cs) substr =
     (if substr \<noteq> [] \<and> HasPrefix (c # cs) substr
      then Suc (count_instances (drop (length substr - 1) cs) substr)
      else count_instances cs substr)"

definition Count :: "string \<Rightarrow> string \<Rightarrow> nat" where
  "Count s substr =
     (if length substr = 0 then RuneCountInString s + 1 else count_instances s substr)"

text \<open>
  \<^verbatim>\<open>strings.ToLower(s)\<close>: a string of ASCII bytes only has its letters A to Z lowered
  byte by byte; any other string is mapped rune by rune through \<^verbatim>\<open>unicode.ToLower\<close>, whose
  tables are not part of this development: \<open>unicode_lower\<close> stands for that mapping.
\<close>

definition lower_byte :: "char \<Rightarrow> char" where
  "lower_byte c =
     (if 65 \<le> (of_char c :: nat) \<and> (of_char c :: nat) \<le> 90
      then char_of (of_char c + 32 :: nat) else c)"

definition ToLower :: "(string \<Rightarrow> string) \<Rightarrow> string \<Rightarrow> string" where
  "ToLower unicode_lower s =
     (if list_all (\<lambda>c. (of_char c :: nat) < 128) s then map lower_byte s else unicode_lower s)"

section \<open>internal/helpers/util.go: GetEntropy\<close>

text \<open>
  \<^verbatim>\<open>string(byte(i))\<close>: the conversion of an integer type to \<^verbatim>\<open>string\<close> yields the UTF-8
  encoding of the code point of that value. Values below 128 give one byte; values from
  128 to 255 give two bytes, a leading byte 0xC2 or 0xC3 and a continuation byte.
\<close>

definition string_byte :: "nat \<Rightarrow> string" where
  "string_byte i =
     (let r = i mod 256
      in if r < 128 then [char_of r] else [char_of (192 + r div 64), char_of (128 + r mod 64)])"

text \<open>
  \<^verbatim>\<open>
  func GetEntropy(data string) (entropy float64) {
      if data == "" { return 0 }
      for i := 0; i < 256; i++ {
          px := float64(strings.Count(data, string(byte(i)))) / float64(len(data))
          if px > 0 { entropy += -px * math.Log2(px) }
      }
      return entropy
  }
  \<close>
  \<^verbatim>\<open>float64\<close> is read as \<open>real\<close>: the arithmetic is exact, rounding is not modelled.
\<close>

definition GetEntropy :: "string \<Rightarrow> real" where
  "GetEntropy data =
     (if data = [] then 0
      else fold (\<lambda>i entropy.
                   let px = real (Count data (string_byte i)) / real (length data)
                   in if px > 0 then entropy + - px * log 2 px else entropy)
             [0..<256] 0)"

text \<open>
  The byte-level empirical Shannon entropy, following the words of the specification: the
  frequency of each of the 256 byte values in the input, and the negative sum over the
  values of non-zero frequency of frequency times its binary logarithm.
\<close>

definition byte_count :: "string \<Rightarrow> char \<Rightarrow> nat" where
  "byte_count s b = length (filter (\<lambda>c. c = b) s)"

definition frequency :: "string \<Rightarrow> char \<Rightarrow> real" where
  "frequency s b = real (byte_count s b) / real (length s)"

definition shannon_entropy :: "string \<Rightarrow> real" where
  "shannon_entropy s =
     - (\<Sum>b \<in> {b. byte_count s b \<noteq> 0}. frequency s b * log 2 (frequency s b))"

text \<open>Auxiliary notions of the proofs about GetEntropy.\<close>

definition entropy_term :: "real \<Rightarrow> real" where
  "entropy_term px = (if px > 0 then - px * log 2 px else 0)"

fun occurrences :: "string \<Rightarrow> string \<Rightarrow> nat" where
  "occurrences [] p = 0"
| "occurrences (c # cs) p = (if HasPrefix (c # cs) p then 1 else 0) + occurrences cs p"

definition decode :: "string \<Rightarrow> nat" where
  "decode s = (case s of [] \<Rightarrow> 0
     | c # rest \<Rightarrow> if (of_char c :: nat) < 128 then of_char c
                   else (of_char c - 192) * 64 + (of_char (hd rest) - 128))"

section \<open>Library functions of package path/filepath used by the helpers\<close>

text \<open>The package depends on the operating system the program is built for.\<close>

datatype goos = Unix | Windows

definition Separator :: "goos \<Rightarrow> char" where
  "Separator os = (case os of Unix \<Rightarrow> CHR ''/'' | Windows \<Rightarrow> CHR 0x5C)"

definition IsPathSeparator :: "goos \<Rightarrow> char \<Rightarrow> bool" where
  "IsPathSeparator os c =
     (case os of Unix \<Rightarrow> c = CHR ''/'' | Windows \<Rightarrow> c = CHR 0x5C \<or> c = CHR ''/'')"

text \<open>
  \<^verbatim>\<open>
  func Ext(path string) string {
      for i := len(path) - 1; i >= 0 && !os.IsPathSeparator(path[i]); i-- {
          if path[i] == '.' { return path[i:] }
      }
      return ""
  }
  \<close>
  \<open>Ext_scan\<close> walks the path backwards: the bytes in front of position \<open>i\<close>, last first,
  and the bytes behind it.
\<close>

fun Ext_scan :: "goos \<Rightarrow> string \<Rightarrow> string \<Rightarrow> string" where
  "Ext_scan os [] suffix = []"
| "Ext_scan os (c # front) suffix =
     (if IsPathSeparator os c then []
      else if c = CHR ''.'' then c # suffix
      else Ext_scan os front (c # suffix))"

definition Ext :: "goos \<Rightarrow> string \<Rightarrow> string" where
  "Ext os path = Ext_scan os (rev path) []"

text \<open>\<^verbatim>\<open>filepath.ToSlash(path)\<close> replaces each separator by a slash.\<close>

definition ToSlash :: "goos \<Rightarrow> string \<Rightarrow> string" where
  "ToSlash os path =
     (if Separator os = CHR ''/'' then path
      else map (\<lambda>c. if c = Separator os then CHR ''/'' else c) path)"

text \<open>
  \<^verbatim>\<open>os.FileInfo\<close>, with the two methods the helpers call. \<^verbatim>\<open>Size\<close> is an \<^verbatim>\<open>int64\<close>.
\<close>

record FileInfo =
  IsDir :: bool
  Size :: "64 word"

text \<open>
  The tree that \<^verbatim>\<open>filepath.Walk\<close> finds under a root, each entry with the path the walk
  hands to the callback: an entry whose \<^verbatim>\<open>Lstat\<close> fails, an entry that is no directory, a
  directory with its entries in lexical order, and a directory whose listing fails.
\<close>

datatype 'x node =
    NoStat string 'x
  | File string "64 word"
  | Dir string "64 word" "'x node list"
  | NoList string "64 word" 'x

definition file_info :: "64 word \<Rightarrow> FileInfo" where
  "file_info sz = \<lparr>IsDir = False, Size = sz\<rparr>"

definition dir_info :: "64 word \<Rightarrow> FileInfo" where
  "dir_info sz = \<lparr>IsDir = True, Size = sz\<rparr>"

text \<open>
  What a \<^verbatim>\<open>WalkFunc\<close> returns besides \<^verbatim>\<open>nil\<close>: \<^verbatim>\<open>filepath.SkipDir\<close> or another error. A
  panic inside the callback unwinds the walk like an error that is not \<^verbatim>\<open>SkipDir\<close>; it
  is kept apart as \<open>Panicked\<close>. The callback is a closure: \<open>'s\<close> is the state it updates.
\<close>

datatype 'x walk_error = SkipDir | Failed 'x | Panicked string

type_synonym ('x, 's) WalkFunc =
  "string \<Rightarrow> FileInfo option \<Rightarrow> 'x option \<Rightarrow> 's \<Rightarrow> 'x walk_error option \<times> 's"

text \<open>
  \<^verbatim>\<open>
  func walk(path string, info os.FileInfo, walkFn WalkFunc) error {
      if !info.IsDir() { return walkFn(path, info, nil) }
      names, err := readDirNames(path)
      err1 := walkFn(path, info, err)
      if err != nil || err1 != nil { return err1 }
      for _, name := range names {
          filename := Join(path, name)
          fileInfo, err := lstat(filename)
          if err != nil {
              if err := walkFn(filename, fileInfo, err); err != nil && err != SkipDir { return err }
          } else {
              err = walk(filename, fileInfo, walkFn)
              if err != nil {
                  if !fileInfo.IsDir() || err != SkipDir { return err }
              }
          }
      }
      return nil
  }

  func Walk(root string, walkFn WalkFunc) error {
      info, err := os.Lstat(root)
      if err != nil { err = walkFn(root, nil, err) } else { err = walk(root, info, walkFn) }
      if err == SkipDir { return nil }
      return err
  }
  \<close>
  \<open>continues n err\<close>: the loop over the names goes on after entry \<open>n\<close> returned \<open>err\<close>.
\<close>

fun continues :: "'x node \<Rightarrow> 'x walk_error \<Rightarrow> bool" where
  "continues (NoStat path e) err = (err = SkipDir)"
| "continues (File path sz) err = False"
| "continues (Dir path sz names) err = (err = SkipDir)"
| "continues (NoList path sz e) err = (err = SkipDir)"

fun walk :: "('x, 's) WalkFunc \<Rightarrow> 'x node \<Rightarrow> 's \<Rightarrow> 'x walk_error option \<times> 's"
  and walk_names :: "('x, 's) WalkFunc \<Rightarrow> 'x node list \<Rightarrow> 's \<Rightarrow> 'x walk_error option \<times> 's" where
  "walk walkFn (NoStat path e) s = walkFn path None (Some e) s"
| "walk walkFn (File path sz) s = walkFn path (Some (file_info sz)) None s"
| "walk walkFn (NoList path sz e) s = walkFn path (Some (dir_info sz)) (Some e) s"
| "walk walkFn (Dir path sz names) s =
     (case walkFn path (Some (dir_info sz)) None s of
        (Some err1, s') \<Rightarrow> (Some err1, s')
      | (None, s') \<Rightarrow> walk_names walkFn names s')"
| "walk_names walkFn [] s = (None, s)"
| "walk_names walkFn (n # names) s =
     (case walk walkFn n s of
        (None, s') \<Rightarrow> walk_names walkFn names s'
      | (Some err, s') \<Rightarrow>
          if continues n err then walk_names walkFn names s' else (Some err, s'))"

definition Walk :: "'x node \<Rightarrow> ('x, 's) WalkFunc \<Rightarrow> 's \<Rightarrow> 'x walk_error option \<times> 's" where
  "Walk rt walkFn s =
     (case walk walkFn rt s of
        (Some SkipDir, s') \<Rightarrow> (None, s')
      | (err, s') \<Rightarrow> (err, s'))"

section \<open>internal/helpers/util.go: GetCheckableFiles\<close>

text \<open>
  \<^verbatim>\<open>settings.ConfigBlacklists\<close>, with the two fields GetCheckableFiles reads. What the
  program is built with and against: the operating system, the rune mapping of
  \<^verbatim>\<open>strings.ToLower\<close>, and \<^verbatim>\<open>types.NewMatchFile\<close>, which makes the \<^verbatim>\<open>MatchFile\<close> of a path.
\<close>

record ConfigBlacklists =
  Extensions :: "string list"
  Paths :: "string list"

record 'm platform =
  GOOS :: goos
  unicode_lower :: "string \<Rightarrow> string"
  NewMatchFile :: "string \<Rightarrow> 'm"

text \<open>
  \<^verbatim>\<open>
  func GetCheckableFiles(dir string, maximumFileSize int64,
                         blacklists settings.ConfigBlacklists) []types.MatchFile {
      fileList := make([]types.MatchFile, 0)
      maximumFileSizeKb := maximumFileSize * 1024
      filepath.Walk(dir, func(path string, file os.FileInfo, err error) error {
          if err != nil || file.IsDir() || file.Size() > maximumFileSizeKb { return nil }
          extension := strings.ToLower(filepath.Ext(path))
          for _, skippableExt := range blacklists.Extensions {
              if extension == skippableExt { return nil }
          }
          for _, skippablePathIndicator := range blacklists.Paths {
              if strings.Contains(filepath.ToSlash(path), skippablePathIndicator) { return nil }
          }
          fileList = append(fileList, types.NewMatchFile(path))
          return nil
      })
      return fileList
  }
  \<close>
  The two \<^verbatim>\<open>for\<close> loops are \<open>extension_skippable\<close> and \<open>path_skippable\<close>: \<open>True\<close> when the
  loop returns. \<open>visit\<close> is the callback, with \<open>fileList\<close> as its state. The product
  \<open>maximumFileSize * 1024\<close> is a product of \<^verbatim>\<open>int64\<close>: it wraps around.
\<close>

fun extension_skippable :: "string \<Rightarrow> string list \<Rightarrow> bool" where
  "extension_skippable extension [] = False"
| "extension_skippable extension (skippableExt # rest) =
     (if extension = skippableExt then True else extension_skippable extension rest)"

fun path_skippable :: "string \<Rightarrow> string list \<Rightarrow> bool" where
  "path_skippable slashed [] = False"
| "path_skippable slashed (skippablePathIndicator # rest) =
     (if Contains slashed skippablePathIndicator then True else path_skippable slashed rest)"

definition visit ::
  "'m platform \<Rightarrow> 64 word \<Rightarrow> ConfigBlacklists \<Rightarrow> ('x, 'm list) WalkFunc" where
  "visit pf maximumFileSizeKb blacklists path file err fileList =
     (if err \<noteq> None then (None, fileList)
      else case file of
        None \<Rightarrow> (Some (Panicked nil_dereference), fileList)
      | Some info \<Rightarrow>
          if IsDir info \<or> maximumFileSizeKb <s Size info then (None, fileList)
          else let extension = ToLower (unicode_lower pf) (Ext (GOOS pf) path)
               in if extension_skippable extension (Extensions blacklists) then (None, fileList)
                  else if path_skippable (ToSlash (GOOS pf) path) (Paths blacklists)
                    then (None, fileList)
                  else (None, fileList @ [NewMatchFile pf path]))"

definition GetCheckableFiles ::
  "'m platform \<Rightarrow> 'x node \<Rightarrow> 64 word \<Rightarrow> ConfigBlacklists \<Rightarrow> 'm list outcome" where
  "GetCheckableFiles pf dir maximumFileSize blacklists =
     (let fileList = [];
          maximumFileSizeKb = maximumFileSize * 1024
      in case Walk dir (visit pf maximumFileSizeKb blacklists) fileList of
           (Some (Panicked msg), fileList') \<Rightarrow> Panics msg
         | (err, fileList') \<Rightarrow> Returns fileList')"

text \<open>
  The entries the walk hands to the callback with their \<^verbatim>\<open>FileInfo\<close> and no error, in the
  order of the walk, and the test the callback applies to them.
\<close>

fun visited :: "'x node \<Rightarrow> (string \<times> FileInfo) list" where
  "visited (NoStat path e) = []"
| "visited (File path sz) = [(path, file_info sz)]"
| "visited (NoList path sz e) = []"
| "visited (Dir path sz names) = (path, dir_info sz) # concat (map visited names)"

definition candidate ::
  "'m platform \<Rightarrow> 64 word \<Rightarrow> ConfigBlacklists \<Rightarrow> string \<times> FileInfo \<Rightarrow> bool" where
  "candidate pf maximumFileSizeKb blacklists entry =
     (case entry of (path, info) \<Rightarrow>
        \<not> IsDir info \<and> \<not> maximumFileSizeKb <s Size info
        \<and> \<not> extension_skippable (ToLower (unicode_lower pf) (Ext (GOOS pf) path))
              (Extensions blacklists)
        \<and> \<not> path_skippable (ToSlash (GOOS pf) path) (Paths blacklists))"

definition candidates ::
  "'m platform \<Rightarrow> 64 word \<Rightarrow> ConfigBlacklists \<Rightarrow> (string \<times> FileInfo) list \<Rightarrow> 'm list" where
  "candidates pf maximumFileSizeKb blacklists entries =
     map (\<lambda>entry. NewMatchFile pf (fst entry))
       (filter (candidate pf maximumFileSizeKb blacklists) entries)"

text \<open>
  Matching that ignores letter case, following the words of the specification: two
  strings are equal, or one contains the other, once both are lowered.
\<close>

definition equal_ignoring_case :: "(string \<Rightarrow> string) \<Rightarrow> string \<Rightarrow> string \<Rightarrow> bool" where
  "equal_ignoring_case ul a b = (ToLower ul a = ToLower ul b)"

definition contains_ignoring_case :: "(string \<Rightarrow> string) \<Rightarrow> string \<Rightarrow> string \<Rightarrow> bool" where
  "contains_ignoring_case ul s substr = Contains (ToLower ul s) (ToLower ul substr)"

section \<open>internal/helpers/util.go: GetRandomToken\<close>

text \<open>
  \<^verbatim>\<open>rand.Intn(n)\<close> panics when \<open>n \<le> 0\<close> and returns a number from 0 up to \<open>n - 1\<close>
  otherwise; \<open>draw\<close> is the non-negative number the global source produces for the call.
\<close>

definition Intn :: "nat \<Rightarrow> int \<Rightarrow> int outcome" where
  "Intn draw n = (if n \<le> 0 then Panics ''invalid argument to Intn'' else Returns (int draw mod n))"

record ConfigSource =
  Tokens :: "string list"

text \<open>
  \<^verbatim>\<open>
  func GetRandomToken(configSource settings.ConfigSource) string {
      numberOfTokens := len(configSource.Tokens)
      return configSource.Tokens[rand.Intn(numberOfTokens)]
  }
  \<close>
  Indexing a slice outside its bounds panics.
\<close>

definition index :: "'a list \<Rightarrow> int \<Rightarrow> 'a outcome" where
  "index xs i =
     (if 0 \<le> i \<and> i < int (length xs) then Returns (xs ! nat i) else Panics ''index out of range'')"

definition GetRandomToken :: "nat \<Rightarrow> ConfigSource \<Rightarrow> string outcome" where
  "GetRandomToken draw configSource =
     (let numberOfTokens = int (length (Tokens configSource))
      in case Intn draw numberOfTokens of
           Panics msg \<Rightarrow> Panics msg
         | Returns i \<Rightarrow> index (Tokens configSource) i)"

section \<open>Fixtures of the closed instances\<close>

text \<open>
  A network whose requests are always built and
  answered by a fixed \<^verbatim>\<open>Do\<close> result, and a decoder that accepts exactly the document \<^verbatim>\<open>7\<close>.
\<close>

definition fixed_net :: "string Response option \<times> string go_error option \<Rightarrow> string http" where
  "fixed_net r = \<lparr>NewRequest = (\<lambda>m u. (Some \<lparr>Method = m, URL = u, Header = []\<rparr>, None)),
                  Do = (\<lambda>req. r)\<rparr>"

definition answer :: "int \<Rightarrow> string \<Rightarrow> string \<times> string go_error option \<Rightarrow> string http" where
  "answer code status body = fixed_net (Some \<lparr>StatusCode = code, Status = status, Body = body\<rparr>, None)"

definition decode_seven :: "string \<Rightarrow> nat \<Rightarrow> string go_error option \<times> nat" where
  "decode_seven contents v =
     (if contents = ''7'' then (None, 7) else (Some (libError ''invalid character''), v))"

text \<open>
  A Unix build whose \<^verbatim>\<open>MatchFile\<close> is the path itself, and a tree with an entry that
  breaks each rule of GetCheckableFiles, an entry that cannot be examined and a directory
  that cannot be listed.
\<close>

definition posix :: "string platform" where
  "posix = \<lparr>GOOS = Unix, unicode_lower = (\<lambda>s. s), NewMatchFile = (\<lambda>path. path)\<rparr>"

definition repo :: "string node" where
  "repo = Dir ''r'' 4096
     [File ''r/a.PNG'' 10,
      NoStat ''r/b'' ''permission denied'',
      Dir ''r/c'' 4096 [File ''r/c/big'' 2000, File ''r/c/x.go'' 20],
      NoList ''r/d'' 4096 ''input/output error'',
      File ''r/node_modules.txt'' 7,
      File ''r/z'' 0]"

definition rules :: ConfigBlacklists where
  "rules = \<lparr>Extensions = [''.png''], Paths = [''node_modules'']\<rparr>"

section \<open>FetchUrlAs: classification of the response\<close>

lemma FetchUrlAs_resp:
  assumes "NewRequest net ''GET'' urlStr = (Some built, err)"
    and "Do net (with_auth auth built) = (Some resp, None)"
  shows "FetchUrlAs net unmarshal urlStr auth v = FetchUrlAs_response unmarshal err resp v"
  using assms by (simp add: FetchUrlAs_def Let_def)

lemma FetchUrlAs_transport:
  assumes "NewRequest net ''GET'' urlStr = (Some built, err)"
    and "Do net (with_auth auth built) = (resp, Some err1)"
  shows "FetchUrlAs net unmarshal urlStr auth v = Returns (err, v)"
  using assms by (simp add: FetchUrlAs_def Let_def split: option.splits)

lemma fixed_net_simps:
  "NewRequest (fixed_net r) m u = (Some \<lparr>Method = m, URL = u, Header = []\<rparr>, None)"
  "Do (fixed_net r) req = r"
  by (simp_all add: fixed_net_def)

text \<open>
  C1, as stated, fails for a response that comes with an error. When the redirect policy
  fails, \<^verbatim>\<open>Do\<close> returns the last response, here one of status 302, together with an
  error: the block under \<^verbatim>\<open>err == nil\<close> is skipped, and the call returns the \<^verbatim>\<open>nil\<close> of
  \<^verbatim>\<open>http.NewRequest\<close> and not the error "got 302 Found, wanted 200 OK".
\<close>

theorem FetchUrlAs_response_with_error_counterexample:
  "FetchUrlAs
       (fixed_net (Some \<lparr>StatusCode = 302, Status = ''302 Found'', Body = ([], None)\<rparr>,
                   Some (libError ''stopped after 10 redirects'')))
       decode_seven ''https://api'' [] 0
     = Returns (None, 0)
   \<and> FetchUrlAs
       (fixed_net (Some \<lparr>StatusCode = 302, Status = ''302 Found'', Body = ([], None)\<rparr>,
                   Some (libError ''stopped after 10 redirects'')))
       decode_seven ''https://api'' [] 0
     \<noteq> Returns (Some (errorString (''got '' @ ''302 Found'' @ '', wanted 200 OK'')), 0)"
proof -
  have "FetchUrlAs
       (fixed_net (Some \<lparr>StatusCode = 302, Status = ''302 Found'', Body = ([], None)\<rparr>,
                   Some (libError ''stopped after 10 redirects'')))
       decode_seven ''https://api'' [] 0
     = Returns (None, 0)"
    by (rule FetchUrlAs_transport) (simp_all add: fixed_net_simps)
  then show ?thesis by simp
qed

text \<open>
  C1, amended. Whenever the request is built and \<^verbatim>\<open>Do\<close> hands back a response and no error:
  status 429 returns the error "rate limited"; status 500 returns the error
  "internal server error"; every other status but 200 returns the error
  "got <status text>, wanted 200 OK" with the response's status text; status 200 with a
  body that was read and that \<open>unmarshal\<close> decodes returns \<^verbatim>\<open>nil\<close> with the target as
  \<open>unmarshal\<close> left it; status 200 with a body that was read and that \<open>unmarshal\<close> rejects
  returns the error of \<open>unmarshal\<close>. The three status errors differ from one another
  whatever the status text is.
\<close>

theorem FetchUrlAs_classifies_response:
  assumes "NewRequest net ''GET'' urlStr = (Some built, err)"
    and "Do net (with_auth auth built) = (Some resp, None)"
  shows "(StatusCode resp = 429 \<longrightarrow>
            FetchUrlAs net unmarshal urlStr auth v = Returns (Some (errorString ''rate limited''), v))
       \<and> (StatusCode resp = 500 \<longrightarrow>
            FetchUrlAs net unmarshal urlStr auth v
              = Returns (Some (errorString ''internal server error''), v))
       \<and> (StatusCode resp \<noteq> 429 \<and> StatusCode resp \<noteq> 500 \<and> StatusCode resp \<noteq> 200 \<longrightarrow>
            FetchUrlAs net unmarshal urlStr auth v
              = Returns (Some (errorString (''got '' @ Status resp @ '', wanted 200 OK'')), v))
       \<and> (StatusCode resp = 200 \<and> Body resp = (contents, None)
            \<and> unmarshal contents v = (None, v') \<longrightarrow>
            FetchUrlAs net unmarshal urlStr auth v = Returns (None, v'))
       \<and> (StatusCode resp = 200 \<and> Body resp = (contents, None)
            \<and> unmarshal contents v = (Some e, v') \<longrightarrow>
            FetchUrlAs net unmarshal urlStr auth v = Returns (Some e, v'))
       \<and> (errorString ''rate limited'' :: 'x go_error) \<noteq> errorString ''internal server error''
       \<and> (errorString ''rate limited'' :: 'x go_error)
            \<noteq> errorString (''got '' @ Status resp @ '', wanted 200 OK'')
       \<and> (errorString ''internal server error'' :: 'x go_error)
            \<noteq> errorString (''got '' @ Status resp @ '', wanted 200 OK'')"
  unfolding FetchUrlAs_resp [OF assms]
  by (simp add: FetchUrlAs_response_def StatusOK_def StatusTooManyRequests_def
      StatusInternalServerError_def errors_New_def Errorf_got_wanted_def)

lemma answer_NewRequest:
  "NewRequest (answer c s b) ''GET'' u = (Some \<lparr>Method = ''GET'', URL = u, Header = []\<rparr>, None)"
  by (simp add: answer_def fixed_net_simps)

lemma answer_Do:
  "Do (answer c s b) req = (Some \<lparr>StatusCode = c, Status = s, Body = b\<rparr>, None)"
  by (simp add: answer_def fixed_net_simps)

theorem FetchUrlAs_classifies_response_witness:
  "FetchUrlAs (answer 429 ''429 Too Many Requests'' ([], None)) decode_seven ''https://api'' ''token x'' 0
     = Returns (Some (errorString ''rate limited''), 0)
   \<and> FetchUrlAs (answer 500 ''500 Internal Server Error'' ([], None)) decode_seven ''https://api'' [] 0
     = Returns (Some (errorString ''internal server error''), 0)
   \<and> FetchUrlAs (answer 404 ''404 Not Found'' ([], None)) decode_seven ''https://api'' [] 0
     = Returns (Some (errorString ''got 404 Not Found, wanted 200 OK''), 0)
   \<and> FetchUrlAs (answer 200 ''200 OK'' (''7'', None)) decode_seven ''https://api'' [] 0
     = Returns (None, 7)
   \<and> FetchUrlAs (answer 200 ''200 OK'' (''{'', None)) decode_seven ''https://api'' [] 0
     = Returns (Some (libError ''invalid character''), 0)"
proof -
  show ?thesis
    using FetchUrlAs_classifies_response [where net = "answer 429 ''429 Too Many Requests'' ([], None)"
          and urlStr = "''https://api''" and auth = "''token x''" and err = None
          and built = "\<lparr>Method = ''GET'', URL = ''https://api'', Header = []\<rparr>"
          and resp = "\<lparr>StatusCode = 429, Status = ''429 Too Many Requests'', Body = ([], None)\<rparr>"
          and unmarshal = decode_seven and v = 0 and contents = "[]" and v' = 0
          and e = "libError []"]
      FetchUrlAs_classifies_response [where net = "answer 500 ''500 Internal Server Error'' ([], None)"
          and urlStr = "''https://api''" and auth = "[]" and err = None
          and built = "\<lparr>Method = ''GET'', URL = ''https://api'', Header = []\<rparr>"
          and resp = "\<lparr>StatusCode = 500, Status = ''500 Internal Server Error'', Body = ([], None)\<rparr>"
          and unmarshal = decode_seven and v = 0 and contents = "[]" and v' = 0
          and e = "libError []"]
      FetchUrlAs_classifies_response [where net = "answer 404 ''404 Not Found'' ([], None)"
          and urlStr = "''https://api''" and auth = "[]" and err = None
          and built = "\<lparr>Method = ''GET'', URL = ''https://api'', Header = []\<rparr>"
          and resp = "\<lparr>StatusCode = 404, Status = ''404 Not Found'', Body = ([], None)\<rparr>"
          and unmarshal = decode_seven and v = 0 and contents = "[]" and v' = 0
          and e = "libError []"]
      FetchUrlAs_classifies_response [where net = "answer 200 ''200 OK'' (''7'', None)"
          and urlStr = "''https://api''" and auth = "[]" and err = None
          and built = "\<lparr>Method = ''GET'', URL = ''https://api'', Header = []\<rparr>"
          and resp = "\<lparr>StatusCode = 200, Status = ''200 OK'', Body = (''7'', None)\<rparr>"
          and unmarshal = decode_seven and v = 0 and contents = "''7''" and v' = 7
          and e = "libError []"]
      FetchUrlAs_classifies_response [where net = "answer 200 ''200 OK'' (''{'', None)"
          and urlStr = "''https://api''" and auth = "[]" and err = None
          and built = "\<lparr>Method = ''GET'', URL = ''https://api'', Header = []\<rparr>"
          and resp = "\<lparr>StatusCode = 200, Status = ''200 OK'', Body = (''{'', None)\<rparr>"
          and unmarshal = decode_seven and v = 0 and contents = "''{''" and v' = 0
          and e = "libError ''invalid character''"]
    by (simp add: answer_NewRequest answer_Do decode_seven_def)
qed

section \<open>FetchUrlAs: failures of the transport and of the body read\<close>

text \<open>
  C2. The transport fails: \<^verbatim>\<open>Do\<close> returns no response and the error "connection refused".
  The error is bound to the \<^verbatim>\<open>err\<close> of the \<^verbatim>\<open>if\<close> header only; the function returns the
  \<^verbatim>\<open>err\<close> of \<^verbatim>\<open>http.NewRequest\<close>, which is \<^verbatim>\<open>nil\<close>: the caller sees success with the target
  untouched.
\<close>

theorem FetchUrlAs_transport_error_lost:
  "FetchUrlAs (fixed_net (None, Some (libError ''dial tcp: connection refused'')))
       decode_seven ''https://api'' ''token x'' 0
     = Returns (None, 0)"
  by (rule FetchUrlAs_transport) (simp_all add: fixed_net_simps)

text \<open>
  C10. A 200 response whose body cannot be read: the read error is bound to the \<^verbatim>\<open>err\<close>
  of the inner \<^verbatim>\<open>if\<close> header only, \<^verbatim>\<open>json.Unmarshal\<close> is not called, and the function
  returns the \<^verbatim>\<open>nil\<close> error of \<^verbatim>\<open>http.NewRequest\<close> with the target as it was.
\<close>

theorem FetchUrlAs_body_read_error_lost:
  assumes "NewRequest net ''GET'' urlStr = (Some built, None)"
    and "Do net (with_auth auth built) = (Some resp, None)"
    and "StatusCode resp = 200"
    and "Body resp = (contents, Some readErr)"
  shows "FetchUrlAs net unmarshal urlStr auth v = Returns (None, v)"
  unfolding FetchUrlAs_resp [OF assms(1,2)] using assms(3,4)
  by (simp add: FetchUrlAs_response_def StatusOK_def StatusTooManyRequests_def
      StatusInternalServerError_def)

theorem FetchUrlAs_body_read_error_lost_witness:
  "FetchUrlAs (answer 200 ''200 OK'' (''[7,'', Some (libError ''unexpected EOF'')))
       decode_seven ''https://api'' [] 3
     = Returns (None, 3)"
  using FetchUrlAs_body_read_error_lost [where net = "answer 200 ''200 OK''
          (''[7,'', Some (libError ''unexpected EOF''))"
        and urlStr = "''https://api''" and auth = "[]"
        and built = "\<lparr>Method = ''GET'', URL = ''https://api'', Header = []\<rparr>"
        and resp = "\<lparr>StatusCode = 200, Status = ''200 OK'',
          Body = (''[7,'', Some (libError ''unexpected EOF''))\<rparr>"
        and contents = "''[7,''" and readErr = "libError ''unexpected EOF''"
        and unmarshal = decode_seven and v = 3]
  by (simp add: answer_NewRequest answer_Do)

section \<open>GetEntropy: range and relation to the Shannon entropy\<close>

lemma fold_entropy:
  "fold (\<lambda>i entropy. let px = f i in if px > 0 then entropy + - px * log 2 px else entropy) xs a
     = a + sum_list (map (\<lambda>i. entropy_term (f i)) xs)"
  by (induction xs arbitrary: a) (simp_all add: entropy_term_def Let_def)

lemma GetEntropy_sum:
  "data \<noteq> [] \<Longrightarrow> GetEntropy data
     = (\<Sum>i<256. entropy_term (real (Count data (string_byte i)) / real (length data)))"
  by (simp add: GetEntropy_def fold_entropy interv_sum_list_conv_sum_set_nat lessThan_atLeast0)

lemma string_byte_decode:
  assumes "i < 256" "HasPrefix s (string_byte i)"
  shows "i = decode s"
proof (cases "i < 128")
  case True
  with assms obtain rest where "s = char_of i # rest"
    by (cases s) (auto simp: string_byte_def)
  with True show ?thesis by (simp add: decode_def)
next
  case False
  with assms obtain rest where "s = char_of (192 + i div 64) # char_of (128 + i mod 64) # rest"
    by (cases s; cases "tl s") (auto simp: string_byte_def)
  moreover have "(192 + i div 64) mod 256 = 192 + i div 64" using assms(1) by simp
  moreover have "(128 + i mod 64) mod 256 = 128 + i mod 64" by simp
  ultimately show ?thesis using False by (simp add: decode_def)
qed

lemma string_byte_nonempty: "string_byte i \<noteq> []"
  by (simp add: string_byte_def Let_def)

lemma occurrences_drop: "occurrences (drop k s) p \<le> occurrences s p"
proof (induction s arbitrary: k)
  case Nil
  then show ?case by simp
next
  case (Cons c cs)
  show ?case
  proof (cases k)
    case 0
    then show ?thesis by simp
  next
    case (Suc m)
    have "occurrences (drop m cs) p \<le> occurrences cs p" by (rule Cons.IH)
    with Suc show ?thesis by simp
  qed
qed

lemma count_instances_le: "count_instances s p \<le> occurrences s p"
proof (induction s p rule: count_instances.induct)
  case (1 substr)
  then show ?case by simp
next
  case (2 c cs substr)
  show ?case
  proof (cases "substr \<noteq> [] \<and> HasPrefix (c # cs) substr")
    case True
    with 2 have "count_instances (drop (length substr - 1) cs) substr
        \<le> occurrences (drop (length substr - 1) cs) substr" by simp
    also have "\<dots> \<le> occurrences cs substr" by (rule occurrences_drop)
    finally show ?thesis using True by simp
  next
    case False
    with 2 have "count_instances cs substr \<le> occurrences cs substr" by simp
    with False show ?thesis by auto
  qed
qed

lemma at_most_one_prefix:
  "(\<Sum>i<256. if HasPrefix s (string_byte i) then 1 else 0 :: nat) \<le> 1"
proof -
  have "(\<Sum>i<256. if HasPrefix s (string_byte i) then 1 else 0 :: nat)
      \<le> (\<Sum>i<256. if i = decode s then 1 else 0)"
    by (rule sum_mono) (auto dest: string_byte_decode)
  also have "\<dots> \<le> 1" by simp
  finally show ?thesis .
qed

lemma occurrences_sum: "(\<Sum>i<256. occurrences s (string_byte i)) \<le> length s"
proof (induction s)
  case Nil
  then show ?case by simp
next
  case (Cons c cs)
  have "(\<Sum>i<256. occurrences (c # cs) (string_byte i))
      = (\<Sum>i<256. if HasPrefix (c # cs) (string_byte i) then 1 else 0)
        + (\<Sum>i<256. occurrences cs (string_byte i))"
    by (simp add: sum.distrib)
  also have "\<dots> \<le> 1 + length cs"
    using at_most_one_prefix [of "c # cs"] Cons.IH by linarith
  finally show ?case by simp
qed

lemma Count_sum: "(\<Sum>i<256. Count s (string_byte i)) \<le> length s"
proof -
  have "(\<Sum>i<256. Count s (string_byte i)) \<le> (\<Sum>i<256. occurrences s (string_byte i))"
    by (rule sum_mono) (simp add: Count_def string_byte_nonempty count_instances_le)
  then show ?thesis using occurrences_sum [of s] by linarith
qed

lemma entropy_term_nonneg: "0 \<le> p \<Longrightarrow> p \<le> 1 \<Longrightarrow> 0 \<le> entropy_term p"
  by (simp add: entropy_term_def mult_nonneg_nonpos2 zero_le_mult_iff mult_le_0_iff)

lemma ln2_bound: "1 / 2 \<le> ln (2::real)"
proof -
  have "ln (1 / 2 :: real) \<le> 1 / 2 - 1" by (rule ln_le_minus_one) simp
  then show ?thesis by (simp add: ln_div)
qed

lemma entropy_term_le:
  assumes "0 \<le> p"
  shows "entropy_term p \<le> 8 * p + (1 / 256 - p) / ln 2"
proof (cases "p = 0")
  case True
  have "0 < ln (2::real)" by simp
  with True show ?thesis by (simp add: entropy_term_def)
next
  case False
  with assms have p: "0 < p" by simp
  have l2: "0 < ln (2::real)" by simp
  have "ln (1 / (256 * p)) \<le> 1 / (256 * p) - 1"
    by (rule ln_le_minus_one) (use p in simp)
  moreover have "ln (1 / (256 * p)) = - (8 * ln 2) - ln p"
  proof -
    have "ln (256 :: real) = ln (2 ^ 8)" by simp
    also have "\<dots> = 8 * ln 2" by (subst ln_realpow) simp_all
    finally show ?thesis using p by (simp add: ln_div ln_mult)
  qed
  ultimately have "- (8 * ln 2) - ln p \<le> 1 / (256 * p) - 1" by simp
  then have "p * (- (8 * ln 2) - ln p) \<le> p * (1 / (256 * p) - 1)"
    using p by (simp only: mult_le_cancel_left_pos)
  also have "p * (1 / (256 * p) - 1) = 1 / 256 - p"
    using p by (simp add: field_simps)
  finally have "- (p * ln p) \<le> 8 * p * ln 2 + (1 / 256 - p)"
    by (simp add: algebra_simps)
  then have "- (p * ln p) / ln 2 \<le> (8 * p * ln 2 + (1 / 256 - p)) / ln 2"
    using l2 by (simp only: divide_le_cancel) simp
  also have "\<dots> = 8 * p + (1 / 256 - p) / ln 2"
    using l2 by (simp add: add_divide_distrib)
  finally show ?thesis using p by (simp add: entropy_term_def log_def)
qed

text \<open>
  C7. For every input string, the entropy GetEntropy computes lies between 0 and 8.
\<close>

theorem GetEntropy_range: "0 \<le> GetEntropy s \<and> GetEntropy s \<le> 8"
proof (cases "s = []")
  case True
  then show ?thesis by (simp add: GetEntropy_def)
next
  case False
  define n where "n = real (length s)"
  define p where "p i = real (Count s (string_byte i)) / n" for i
  have n: "0 < n" using False by (simp add: n_def)
  have total: "(\<Sum>i<256. p i) \<le> 1"
  proof -
    have "(\<Sum>i<256. p i) = real (\<Sum>i<256. Count s (string_byte i)) / n"
      by (simp add: p_def sum_divide_distrib)
    also have "\<dots> \<le> n / n"
    proof (rule divide_right_mono)
      show "real (\<Sum>i<256. Count s (string_byte i)) \<le> n"
        unfolding n_def using Count_sum [of s] by (simp only: of_nat_le_iff)
      show "0 \<le> n" using n by simp
    qed
    finally show ?thesis using n by simp
  qed
  have nonneg: "0 \<le> p i" for i using n by (simp add: p_def)
  have le1: "p i \<le> 1" if "i < 256" for i
  proof -
    have "p i \<le> (\<Sum>j<256. p j)"
      using that nonneg by (intro member_le_sum) simp_all
    with total show ?thesis by linarith
  qed
  have eq: "GetEntropy s = (\<Sum>i<256. entropy_term (p i))"
    using False by (simp add: GetEntropy_sum p_def n_def)
  have lower: "0 \<le> GetEntropy s"
    unfolding eq by (intro sum_nonneg entropy_term_nonneg nonneg le1) simp
  have "GetEntropy s \<le> (\<Sum>i<256. 8 * p i + (1 / 256 - p i) / ln 2)"
    unfolding eq by (intro sum_mono entropy_term_le nonneg)
  also have "\<dots> = 8 * (\<Sum>i<256. p i) + (1 - (\<Sum>i<256. p i)) / ln 2"
    by (simp add: sum.distrib sum_distrib_left sum_subtractf diff_divide_distrib
        flip: sum_divide_distrib)
  also have "\<dots> \<le> 8"
  proof -
    define c where "c = (\<Sum>i<256. p i)"
    have c: "c \<le> 1" using total by (simp add: c_def)
    have "1 / ln (2::real) \<le> 2"
      using ln2_bound by (simp add: field_simps)
    then have "(1 - c) * (1 / ln 2) \<le> (1 - c) * 8"
      using c by (intro mult_left_mono) simp_all
    then show ?thesis unfolding c_def [symmetric] by (simp add: algebra_simps)
  qed
  finally show ?thesis using lower by simp
qed

lemma GetEntropy_empty: "GetEntropy [] = 0"
  by (simp add: GetEntropy_def)

lemma chr_a: "CHR ''a'' = char_of (97::nat)"
proof -
  have "CHR ''a'' = char_of (of_char (CHR ''a'') :: nat)" by (simp only: char_of_char)
  then show ?thesis by simp
qed

lemma chr_c8: "CHR 0xC8 = char_of (200::nat)"
proof -
  have "CHR 0xC8 = char_of (of_char (CHR 0xC8) :: nat)" by (simp only: char_of_char)
  then show ?thesis by simp
qed

lemma Count_example:
  assumes "i < 256"
  shows "Count [CHR ''a'', CHR 0xC8] (string_byte i) = (if i = 97 then 1 else 0)"
proof (cases "i < 128")
  case True
  then show ?thesis
    unfolding chr_a chr_c8 by (auto simp add: Count_def string_byte_def)
next
  case False
  then show ?thesis using assms
    unfolding chr_a chr_c8 by (auto simp add: Count_def string_byte_def)
qed

lemma log_half: "log 2 (1 / 2) = - 1"
  by (simp add: log_recip)

lemma GetEntropy_example: "GetEntropy [CHR ''a'', CHR 0xC8] = 1 / 2"
proof -
  have "GetEntropy [CHR ''a'', CHR 0xC8]
      = (\<Sum>i<256. entropy_term (real (Count [CHR ''a'', CHR 0xC8] (string_byte i)) / 2))"
    by (simp add: GetEntropy_sum)
  also have "\<dots> = (\<Sum>i<256. if i = (97::nat) then entropy_term (1 / 2) else 0)"
    by (rule sum.cong) (simp_all add: Count_example entropy_term_def)
  also have "\<dots> = 1 / 2"
    by (simp add: entropy_term_def log_half)
  finally show ?thesis .
qed

lemma shannon_entropy_example: "shannon_entropy [CHR ''a'', CHR 0xC8] = 1"
proof -
  have "{b. byte_count [CHR ''a'', CHR 0xC8] b \<noteq> 0} = {CHR ''a'', CHR 0xC8}"
    by (auto simp: byte_count_def)
  then show ?thesis
    by (simp add: shannon_entropy_def frequency_def byte_count_def log_half)
qed


text \<open>
  On input of ASCII bytes only, GetEntropy is the byte-level Shannon entropy: each of the
  first 128 patterns is one byte, and none of the other 128 occurs.
\<close>

lemma count_instances_single: "count_instances s [c] = byte_count s c"
  by (induction s) (simp_all add: byte_count_def)

lemma count_instances_absent: "c \<notin> set s \<Longrightarrow> count_instances s (c # ps) = 0"
  by (induction s) auto

lemma Count_ascii:
  assumes "list_all (\<lambda>c. (of_char c :: nat) < 128) s" "i < 256"
  shows "Count s (string_byte i) = byte_count s (char_of i)"
proof (cases "i < 128")
  case True
  then show ?thesis by (simp add: Count_def string_byte_def count_instances_single)
next
  case False
  have hi: "c \<notin> set s" if "128 \<le> (of_char c :: nat)" for c
    using assms(1) that by (auto simp add: list_all_iff)
  have "char_of (192 + i div 64) \<notin> set s"
    using assms(2) by (intro hi) simp
  moreover have "char_of i \<notin> set s"
    using assms(2) False by (intro hi) simp
  then have "byte_count s (char_of i) = 0"
    by (auto simp add: byte_count_def filter_empty_conv)
  ultimately show ?thesis
    using False assms(2) by (simp add: Count_def string_byte_def count_instances_absent)
qed

lemma shannon_entropy_sum:
  "shannon_entropy s = (\<Sum>i<256. entropy_term (frequency s (char_of (i::nat))))"
proof -
  have t: "entropy_term (frequency s b)
      = (if byte_count s b \<noteq> 0 then - (frequency s b * log 2 (frequency s b)) else 0)" for b
  proof (cases "byte_count s b = 0")
    case True
    then show ?thesis by (simp add: entropy_term_def frequency_def)
  next
    case False
    then have "s \<noteq> []" by (auto simp add: byte_count_def)
    with False have "0 < frequency s b" by (simp add: frequency_def)
    with False show ?thesis by (simp add: entropy_term_def)
  qed
  have "shannon_entropy s = (\<Sum>b \<in> {b. byte_count s b \<noteq> 0}. entropy_term (frequency s b))"
    by (simp add: shannon_entropy_def t sum_negf)
  also have "\<dots> = (\<Sum>b \<in> UNIV. entropy_term (frequency s b))"
    by (rule sum.mono_neutral_left) (auto simp add: t)
  also have "\<dots> = (\<Sum>b \<in> char_of ` {0::nat..<256}. entropy_term (frequency s b))"
    by (simp only: UNIV_char_of_nat)
  also have "\<dots> = (\<Sum>i \<in> {0::nat..<256}. entropy_term (frequency s (char_of i)))"
    by (simp add: sum.reindex)
  finally show ?thesis by (simp add: lessThan_atLeast0)
qed

lemma GetEntropy_ascii:
  assumes "list_all (\<lambda>c. (of_char c :: nat) < 128) s"
  shows "GetEntropy s = shannon_entropy s"
proof (cases "s = []")
  case True
  then show ?thesis by (simp add: GetEntropy_def shannon_entropy_def byte_count_def)
next
  case False
  then show ?thesis
    by (simp add: GetEntropy_sum shannon_entropy_sum frequency_def Count_ascii [OF assms])
qed

text \<open>
  C3. GetEntropy of the empty string is 0. On the two bytes 0x61 0xC8 the byte-level
  Shannon entropy is 1 bit (two values of frequency one half), and GetEntropy returns
  one half: its pattern for the value 200 is the two bytes 0xC3 0x88, which do not occur,
  so the byte 0xC8 is not counted at all.
\<close>

theorem GetEntropy_counts_encodings_not_bytes:
  "GetEntropy [] = 0
   \<and> GetEntropy [CHR ''a'', CHR 0xC8] = 1 / 2
   \<and> shannon_entropy [CHR ''a'', CHR 0xC8] = 1"
  by (intro conjI GetEntropy_empty GetEntropy_example shannon_entropy_example)

section \<open>GetCheckableFiles: the walk and its candidates\<close>

lemma candidates_simps:
  "candidates pf k bl [] = []"
  "candidates pf k bl (xs @ ys) = candidates pf k bl xs @ candidates pf k bl ys"
  by (simp_all add: candidates_def)

lemma visit_error: "visit pf k bl path file (Some e) fileList = (None, fileList)"
  by (simp add: visit_def)

lemma visit_info:
  "visit pf k bl path (Some info) None fileList = (None, fileList @ candidates pf k bl [(path, info)])"
  by (simp add: visit_def candidates_def candidate_def Let_def)

lemma walk_visit:
  fixes n :: "'x node" and names :: "'x node list" and pf :: "'m platform"
  shows "walk (visit pf k bl) n fileList = (None, fileList @ candidates pf k bl (visited n))"
    and "walk_names (visit pf k bl) names fileList
     = (None, fileList @ candidates pf k bl (concat (map visited names)))"
proof (induction "visit pf k bl :: ('x, 'm list) WalkFunc" n fileList
    and "visit pf k bl :: ('x, 'm list) WalkFunc" names fileList
    rule: walk_walk_names.induct)
  case (1 path e s)
  show ?case by (simp add: visit_error candidates_simps)
next
  case (2 path sz s)
  show ?case by (simp add: visit_info)
next
  case (3 path sz e s)
  show ?case by (simp add: visit_error candidates_simps)
next
  case (4 path sz names s)
  have "(None, s @ candidates pf k bl [(path, dir_info sz)])
      = visit pf k bl path (Some (dir_info sz)) None s"
    by (simp only: visit_info)
  from 4 [OF this refl] show ?case
    by (simp add: visit_info candidates_def)
next
  case (5 s)
  show ?case by (simp add: candidates_simps)
next
  case (6 n names s)
  have a: "walk (visit pf k bl) n s = (None, s @ candidates pf k bl (visited n))"
    by (rule 6)
  from 6(2) [OF a [symmetric] refl] show ?case
    by (simp add: a candidates_simps)
qed

lemma Walk_visit:
  "Walk dir (visit pf k bl) fileList = (None, fileList @ candidates pf k bl (visited dir))"
  by (simp add: Walk_def walk_visit)

lemma GetCheckableFiles_eq:
  "GetCheckableFiles pf dir maximumFileSize blacklists
     = Returns (candidates pf (maximumFileSize * 1024) blacklists (visited dir))"
  by (simp add: GetCheckableFiles_def Walk_visit)

lemma extension_skippable_iff: "extension_skippable extension exts \<longleftrightarrow> extension \<in> set exts"
  by (induction exts) auto

lemma path_skippable_iff:
  "path_skippable slashed paths \<longleftrightarrow> (\<exists>p \<in> set paths. Contains slashed p)"
  by (induction paths) auto

lemma wrapped_product_le:
  assumes "- (2 ^ 53) \<le> sint (m :: 64 word)"
  shows "sint (m * 1024) \<le> sint m * 1024"
proof (cases "sint m * 1024 < 2 ^ 63")
  case True
  have "sint (m * 1024) = signed_take_bit 63 (sint m * sint (1024 :: 64 word))"
    by (simp add: sint_word_ariths)
  also have "\<dots> = signed_take_bit 63 (sint m * 1024)" by simp
  also have "\<dots> = sint m * 1024"
    using assms True by (intro signed_take_bit_int_eq_self) simp_all
  finally show ?thesis by simp
next
  case False
  have "sint (m * 1024) < 2 ^ 63"
    using sint_lt [of "m * 1024"] by simp
  with False show ?thesis by linarith
qed

lemma visited_repo:
  "visited repo = [(''r'', dir_info 4096), (''r/a.PNG'', file_info 10), (''r/c'', dir_info 4096),
     (''r/c/big'', file_info 2000), (''r/c/x.go'', file_info 20),
     (''r/node_modules.txt'', file_info 7), (''r/z'', file_info 0)]"
  by (simp add: repo_def)

lemma candidates_repo: "candidates posix 1024 rules (visited repo) = [''r/c/x.go'', ''r/z'']"
  unfolding visited_repo
  by (simp add: candidates_def candidate_def posix_def rules_def dir_info_def file_info_def
      ToLower_def Ext_def ToSlash_def Separator_def IsPathSeparator_def lower_byte_def
      word_sless_alt char_of_eq_iff)

lemma char_eq_char_of: "(c = char_of (n::nat)) \<longleftrightarrow> take_bit 8 n = of_char c"
  using char_of_eq_iff [of n c] by auto

section \<open>GetCheckableFiles: entries that cannot be examined\<close>

text \<open>
  C8. For every tree, whatever entries fail in it: the walk is never aborted, and
  GetCheckableFiles returns, in the order of the walk, the candidates among all entries
  visited without error. An entry whose \<^verbatim>\<open>Lstat\<close> fails, or a directory whose listing
  fails, changes nothing for its siblings: the result is the one of the tree without it.
\<close>

theorem GetCheckableFiles_skips_only_failed_entries:
  "GetCheckableFiles pf dir maximumFileSize blacklists
     = Returns (candidates pf (maximumFileSize * 1024) blacklists (visited dir))
   \<and> GetCheckableFiles pf (Dir path sz (front @ [NoStat p e] @ rest)) maximumFileSize blacklists
     = GetCheckableFiles pf (Dir path sz (front @ rest)) maximumFileSize blacklists
   \<and> GetCheckableFiles pf (Dir path sz (front @ [NoList p psz e] @ rest)) maximumFileSize blacklists
     = GetCheckableFiles pf (Dir path sz (front @ rest)) maximumFileSize blacklists"
  by (simp add: GetCheckableFiles_eq)

text \<open>
  The tree \<open>repo\<close> holds an entry that cannot be examined and a directory that cannot be
  listed; the files beside and behind them are returned.
\<close>

theorem GetCheckableFiles_skips_only_failed_entries_witness:
  "GetCheckableFiles posix repo 1 rules = Returns [''r/c/x.go'', ''r/z'']"
  using GetCheckableFiles_skips_only_failed_entries [of posix repo 1 rules, THEN conjunct1]
  by (simp add: candidates_repo)

section \<open>GetCheckableFiles: what the candidates satisfy\<close>

text \<open>
  C4, as stated, fails where the product wraps around: for the maximum file size
  \<open>- 2\<^sup>5\<^sup>3 - 1\<close> the \<^verbatim>\<open>int64\<close> product \<open>maximumFileSize * 1024\<close> is \<open>2\<^sup>6\<^sup>3 - 1024\<close>, and a
  file of 5 bytes is returned although 5 exceeds \<open>maximumFileSize \<times> 1024\<close>.
\<close>

theorem GetCheckableFiles_wrapped_ceiling_counterexample:
  "GetCheckableFiles posix (File ''r/a.txt'' 5 :: string node) (- 9007199254740993)
       \<lparr>Extensions = [], Paths = []\<rparr> = Returns [''r/a.txt'']
   \<and> \<not> sint (5 :: 64 word) \<le> sint (- 9007199254740993 :: 64 word) * 1024"
  by (simp add: GetCheckableFiles_eq candidates_def candidate_def posix_def file_info_def
      word_sless_alt)

text \<open>
  C4, amended. For every platform, tree and blacklist configuration, and every maximum
  file size of at least \<open>- 2\<^sup>5\<^sup>3\<close> (so every non-negative one): GetCheckableFiles returns,
  and every file it returns is the \<^verbatim>\<open>MatchFile\<close> of an entry of the tree that is no
  directory, whose size is at most \<open>maximumFileSize \<times> 1024\<close>, whose lowered extension is
  no entry of the extension blacklist, and whose path with slashes contains no entry of
  the path blacklist.
\<close>

theorem GetCheckableFiles_within_limits:
  assumes "- (2 ^ 53) \<le> sint maximumFileSize"
  shows "\<exists>fileList. GetCheckableFiles pf dir maximumFileSize blacklists = Returns fileList
      \<and> (\<forall>m \<in> set fileList. \<exists>(path, info) \<in> set (visited dir).
            m = NewMatchFile pf path
          \<and> \<not> IsDir info
          \<and> sint (Size info) \<le> sint maximumFileSize * 1024
          \<and> ToLower (unicode_lower pf) (Ext (GOOS pf) path) \<notin> set (Extensions blacklists)
          \<and> (\<forall>p \<in> set (Paths blacklists). \<not> Contains (ToSlash (GOOS pf) path) p))"
proof -
  have "sint (Size info) \<le> sint maximumFileSize * 1024"
    if "\<not> maximumFileSize * 1024 <s Size info" for info
  proof -
    from that have "sint (Size info) \<le> sint (maximumFileSize * 1024)"
      by (simp add: word_sless_alt)
    with wrapped_product_le [OF assms] show ?thesis by linarith
  qed
  then show ?thesis
    unfolding GetCheckableFiles_eq
    by (auto simp add: candidates_def candidate_def extension_skippable_iff path_skippable_iff)
qed

text \<open>
  The tree \<open>repo\<close> holds a file over the ceiling, a file with a blacklisted extension and
  a file with a blacklisted path.
\<close>

theorem GetCheckableFiles_within_limits_witness:
  "- (2 ^ 53) \<le> sint (1 :: 64 word)
   \<and> GetCheckableFiles posix repo 1 rules = Returns [''r/c/x.go'', ''r/z'']
   \<and> (\<exists>fileList. GetCheckableFiles posix repo 1 rules = Returns fileList
      \<and> (\<forall>m \<in> set fileList. \<exists>(path, info) \<in> set (visited repo).
            m = NewMatchFile posix path
          \<and> \<not> IsDir info
          \<and> sint (Size info) \<le> sint (1 :: 64 word) * 1024
          \<and> ToLower (unicode_lower posix) (Ext (GOOS posix) path) \<notin> set (Extensions rules)
          \<and> (\<forall>p \<in> set (Paths rules). \<not> Contains (ToSlash (GOOS posix) path) p)))"
proof -
  have h: "- (2 ^ 53) \<le> sint (1 :: 64 word)" by simp
  have v: "GetCheckableFiles posix repo 1 rules = Returns [''r/c/x.go'', ''r/z'']"
    by (simp add: GetCheckableFiles_eq candidates_repo)
  from h v GetCheckableFiles_within_limits [OF h, of posix repo rules] show ?thesis
    by blast
qed

section \<open>GetCheckableFiles: letter case in the blacklists\<close>

text \<open>
  C6, as stated, fails for both kinds of rule: the extension \<open>.png\<close> equals the
  blacklisted \<open>.PNG\<close> ignoring case, and the path \<open>r/Vendor/b.go\<close> contains the
  blacklisted \<open>vendor\<close> ignoring case, yet both files are returned.
\<close>

theorem blacklist_case_counterexample:
  "GetCheckableFiles posix (Dir ''r'' 4096 [File ''r/a.png'' 10, File ''r/Vendor/b.go'' 10] :: string node)
       1 \<lparr>Extensions = [''.PNG''], Paths = [''vendor'']\<rparr>
     = Returns [''r/a.png'', ''r/Vendor/b.go'']
   \<and> equal_ignoring_case (unicode_lower posix) (Ext (GOOS posix) ''r/a.png'') ''.PNG''
   \<and> contains_ignoring_case (unicode_lower posix) (ToSlash (GOOS posix) ''r/Vendor/b.go'') ''vendor''"
  by (simp add: GetCheckableFiles_eq candidates_def candidate_def posix_def dir_info_def
      file_info_def ToLower_def Ext_def ToSlash_def Separator_def IsPathSeparator_def
      lower_byte_def word_sless_alt char_of_eq_iff char_eq_char_of equal_ignoring_case_def
      contains_ignoring_case_def)

text \<open>
  C6, amended. When every blacklisted extension is written in lower case (it is its own
  lowering), a file is excluded by the extension rule exactly when its extension equals
  a blacklisted extension ignoring letter case. A file is excluded by the path rule
  exactly when its path with slashes contains a blacklisted substring as it is written,
  letter case included. GetCheckableFiles returns the entries visited without error that
  are no directory, within the size ceiling, and excluded by neither rule.
\<close>

theorem blacklist_matching:
  assumes "\<forall>e \<in> set (Extensions blacklists). ToLower (unicode_lower pf) e = e"
  shows "(extension_skippable (ToLower (unicode_lower pf) (Ext (GOOS pf) path)) (Extensions blacklists)
          \<longleftrightarrow> (\<exists>e \<in> set (Extensions blacklists).
                equal_ignoring_case (unicode_lower pf) (Ext (GOOS pf) path) e))
       \<and> (path_skippable (ToSlash (GOOS pf) path) (Paths blacklists)
          \<longleftrightarrow> (\<exists>p \<in> set (Paths blacklists). Contains (ToSlash (GOOS pf) path) p))
       \<and> GetCheckableFiles pf dir maximumFileSize blacklists
          = Returns (map (\<lambda>entry. NewMatchFile pf (fst entry))
              (filter (\<lambda>(file, info). \<not> IsDir info \<and> \<not> maximumFileSize * 1024 <s Size info
                   \<and> \<not> (\<exists>e \<in> set (Extensions blacklists).
                          equal_ignoring_case (unicode_lower pf) (Ext (GOOS pf) file) e)
                   \<and> \<not> (\<exists>p \<in> set (Paths blacklists). Contains (ToSlash (GOOS pf) file) p))
                 (visited dir)))"
proof -
  have ex: "extension_skippable (ToLower (unicode_lower pf) (Ext (GOOS pf) name)) (Extensions blacklists)
      \<longleftrightarrow> (\<exists>e \<in> set (Extensions blacklists).
            equal_ignoring_case (unicode_lower pf) (Ext (GOOS pf) name) e)" for name
    using assms by (auto simp add: extension_skippable_iff equal_ignoring_case_def)
  have "candidate pf (maximumFileSize * 1024) blacklists
      = (\<lambda>(file, info). \<not> IsDir info \<and> \<not> maximumFileSize * 1024 <s Size info
           \<and> \<not> (\<exists>e \<in> set (Extensions blacklists).
                  equal_ignoring_case (unicode_lower pf) (Ext (GOOS pf) file) e)
           \<and> \<not> (\<exists>p \<in> set (Paths blacklists). Contains (ToSlash (GOOS pf) file) p))"
    by (rule ext) (simp add: candidate_def ex path_skippable_iff split: prod.splits)
  then show ?thesis
    by (simp add: ex path_skippable_iff GetCheckableFiles_eq candidates_def)
qed

text \<open>
  With the blacklist \<open>rules\<close>, in lower case: \<open>r/a.PNG\<close> is excluded by the extension
  rule and \<open>r/node_modules.txt\<close> by the path rule.
\<close>

theorem blacklist_matching_witness:
  "ToLower (unicode_lower posix) ''.png'' = ''.png''
   \<and> extension_skippable (ToLower (unicode_lower posix) (Ext (GOOS posix) ''r/a.PNG'')) (Extensions rules)
   \<and> equal_ignoring_case (unicode_lower posix) (Ext (GOOS posix) ''r/a.PNG'') ''.png''
   \<and> path_skippable (ToSlash (GOOS posix) ''r/node_modules.txt'') (Paths rules)
   \<and> GetCheckableFiles posix repo 1 rules = Returns [''r/c/x.go'', ''r/z'']"
proof -
  have h: "\<forall>e \<in> set (Extensions rules). ToLower (unicode_lower posix) e = e"
    by (simp add: rules_def ToLower_def lower_byte_def)
  have e: "equal_ignoring_case (unicode_lower posix) (Ext (GOOS posix) ''r/a.PNG'') ''.png''"
    by (simp add: equal_ignoring_case_def posix_def ToLower_def Ext_def IsPathSeparator_def
        lower_byte_def char_of_eq_iff char_eq_char_of)
  have p: "Contains (ToSlash (GOOS posix) ''r/node_modules.txt'') ''node_modules''"
    by (simp add: posix_def ToSlash_def Separator_def)
  have v: "GetCheckableFiles posix repo 1 rules = Returns [''r/c/x.go'', ''r/z'']"
    by (simp add: GetCheckableFiles_eq candidates_repo)
  have m: "''.png'' \<in> set (Extensions rules)" "''node_modules'' \<in> set (Paths rules)"
    by (simp_all add: rules_def)
  have a: "extension_skippable (ToLower (unicode_lower posix) (Ext (GOOS posix) ''r/a.PNG''))
      (Extensions rules)"
    using blacklist_matching [OF h, of "''r/a.PNG''" repo 1] e m(1) by blast
  have b: "path_skippable (ToSlash (GOOS posix) ''r/node_modules.txt'') (Paths rules)"
    using blacklist_matching [OF h, of "''r/node_modules.txt''" repo 1] p m(2) by blast
  have "ToLower (unicode_lower posix) ''.png'' = ''.png''"
    using h m(1) by blast
  with a e b v show ?thesis by blast
qed

section \<open>GetRandomToken: the empty pool\<close>

text \<open>
  C5, as stated, fails: with no token the call returns nothing to its caller, neither a
  token nor an error value; it panics.
\<close>

theorem GetRandomToken_empty_pool_counterexample:
  "(\<nexists>token. GetRandomToken 0 \<lparr>Tokens = []\<rparr> = Returns token)
   \<and> GetRandomToken 0 \<lparr>Tokens = []\<rparr> = Panics ''invalid argument to Intn''"
  by (simp add: GetRandomToken_def Intn_def)

text \<open>
  C5, amended. For every configuration with an empty pool and every state of the random
  source, GetRandomToken panics inside \<^verbatim>\<open>rand.Intn\<close> with "invalid argument to Intn",
  before the slice of tokens is indexed: the panic is never the one of an access out of
  range.
\<close>

theorem GetRandomToken_empty_pool_panics_in_Intn:
  "GetRandomToken draw (configSource\<lparr>Tokens := []\<rparr>) = Panics ''invalid argument to Intn''
   \<and> GetRandomToken draw (configSource\<lparr>Tokens := []\<rparr>) \<noteq> Panics ''index out of range''"
  by (simp add: GetRandomToken_def Intn_def)

end
